theory Spec2Isabelle
  imports Main "HOL-Library.Word"
begin

section \<open>The hardware composer of src/hwcomposer.cpp\<close>

text \<open>
  The module targets a 32-bit ARM board: pixel buffers are walked through
  \<^verbatim>\<open>unsigned long *\<close> and every byte offset is the pixel index times 4, so
  \<^verbatim>\<open>int\<close>, \<^verbatim>\<open>unsigned long\<close>, \<^verbatim>\<open>size_t\<close> and pointers are 32 bits wide.
  All of them are \<open>32 word\<close>: their sums, differences and products wrap, as the
  machine's do. An \<^verbatim>\<open>int\<close> is read as a number by \<open>sint\<close>, and its conversion to
  \<^verbatim>\<open>size_t\<close> changes no bit. Descriptors, status codes and composition types, on
  which the module does no arithmetic, are \<open>int\<close>.
\<close>

type_synonym addr = "32 word"
type_synonym pixel = "32 word"
type_synonym size_t = "32 word"
type_synonym int32 = "32 word"

subsection \<open>Data\<close>

text \<open>
  \<^verbatim>\<open>hwc_rect_t\<close>. The field \<^verbatim>\<open>top\<close> is \<open>top_r\<close> here, since \<open>top\<close> is a constant
  of HOL.
\<close>

record hwc_rect_t =
  left :: int32
  top_r :: int32
  right :: int32
  bottom :: int32

text \<open>
  \<^verbatim>\<open>private_handle_t\<close>, declared in gralloc_priv.h, of which the module reads the
  descriptor \<^verbatim>\<open>fd\<close>, the mapped address \<^verbatim>\<open>base\<close>, \<^verbatim>\<open>stride\<close> and \<^verbatim>\<open>size\<close>
  (\<open>size_h\<close> here, \<open>size\<close> being a constant of HOL). The module prints \<^verbatim>\<open>stride\<close> and
  \<^verbatim>\<open>size\<close> with \<^verbatim>\<open>%d\<close>: they are \<^verbatim>\<open>int\<close>.
\<close>

record private_handle_t =
  fd :: int
  base :: addr
  stride :: int32
  size_h :: int32

text \<open>
  \<^verbatim>\<open>hwc_layer_t\<close>: the fields the module uses. A null \<^verbatim>\<open>handle\<close> is \<open>None\<close>.
  The layer's \<^verbatim>\<open>flags\<close> are \<open>flags_l\<close>, the list has \<open>flags\<close> of its own.
\<close>

record hwc_layer_t =
  compositionType :: int
  flags_l :: "32 word"
  handle :: "private_handle_t option"
  transform :: "32 word"
  blending :: int
  sourceCrop :: hwc_rect_t
  displayFrame :: hwc_rect_t

text \<open>\<^verbatim>\<open>hwc_layer_list_t\<close>; \<^verbatim>\<open>numHwLayers\<close> is the length of \<^verbatim>\<open>hwLayers\<close>.\<close>

record hwc_layer_list_t =
  flags :: "32 word"
  hwLayers :: "hwc_layer_t list"

definition numHwLayers :: "hwc_layer_list_t \<Rightarrow> nat" where
  "numHwLayers list = length (hwLayers list)"

text \<open>\<^verbatim>\<open>hwc_context_t\<close>: the private state; its own \<^verbatim>\<open>fd\<close> is \<open>ctx_fd\<close>.\<close>

record hwc_context_t =
  ctx_fd :: int
  bb_fd :: int

text \<open>\<^verbatim>\<open>struct xylonbb_params\<close> of linux/xylonbb.h, as the module fills it.\<close>

record xylonbb_params =
  dst_dma_buf :: int
  dst_offset :: size_t
  dst_stripe :: size_t
  src_dma_buf :: int
  src_offset :: size_t
  src_stripe :: size_t
  num_columns :: int32
  num_rows :: int32

text \<open>
  Modelled from the spec: hardware/hwcomposer.h is not among the sources. The spec
  names the classification OVERLAY, the list-level geometry-changed flag and a
  hardware-error status distinct from the status 0 of success; the values are those of
  the Android header.
\<close>

definition HWC_OVERLAY :: int where
  "HWC_OVERLAY = 1"

definition HWC_GEOMETRY_CHANGED :: "32 word" where
  "HWC_GEOMETRY_CHANGED = 1"

definition HWC_EGL_ERROR :: int where
  "HWC_EGL_ERROR = - 1"

definition HWC_HARDWARE_COMPOSER :: string where
  "HWC_HARDWARE_COMPOSER = ''composer''"

definition EINVAL :: int where
  "EINVAL = 22"

subsection \<open>The world: memory and what the module does to its surroundings\<close>

text \<open>
  Memory maps the address of a 32-bit cell to its contents; buffers are mapped
  word-aligned, so two pixel accesses meet in a whole cell or not at all. The trace
  lists, in order, the diagnostics the module logs, the pixel loads and stores it
  performs, and its calls of the accelerator and of the present operation.
\<close>

datatype event =
    ALOGD_hwc_prepare
  | ALOGD_dump_layer nat hwc_layer_t int
  | ALOGD_needs_scaling
  | ALOGD_null_base_layer
  | ALOGD_bitblitLayer addr addr int32 int32 int32 int32 int32 int32
  | ALOGD_handles int int
  | ALOGD_base_ref_out_of_bounds
  | ALOGD_layer_ref_out_of_bounds int32 int int int32 size_t int32
  | ALOGD_hwc_set addr addr
  | ALOGE_failed_to_open int
  | Ioctl_BITBLIT int xylonbb_params
  | Load addr
  | Store addr pixel
  | EglSwapBuffers addr addr

record world =
  mem :: "addr \<Rightarrow> pixel"
  trace :: "event list"

definition emit :: "event \<Rightarrow> world \<Rightarrow> world" where
  "emit e w = w\<lparr>trace := trace w @ [e]\<rparr>"

subsection \<open>\<^verbatim>\<open>dump_layer\<close> and \<^verbatim>\<open>hwc_prepare\<close>\<close>

definition dump_layer :: "nat \<Rightarrow> hwc_layer_t \<Rightarrow> world \<Rightarrow> world" where
  "dump_layer layer_number l w =
     emit (ALOGD_dump_layer layer_number l
             (case handle l of Some phnd \<Rightarrow> sint (stride phnd) | None \<Rightarrow> - 1)) w"

text \<open>
  The test of lines 89 to 92, on the layer \<open>l\<close>: four differences of \<^verbatim>\<open>int\<close>s, which
  wrap, compared two by two.
\<close>

definition needs_scaling :: "hwc_layer_t \<Rightarrow> bool" where
  "needs_scaling l \<longleftrightarrow>
     right (displayFrame l) - left (displayFrame l)
       \<noteq> right (sourceCrop l) - left (sourceCrop l)
     \<or> top_r (displayFrame l) - bottom (displayFrame l)
       \<noteq> top_r (sourceCrop l) - bottom (sourceCrop l)"

text \<open>
  Modelled from the spec: \<^verbatim>\<open>private_handle_t::validate\<close> is declared in gralloc_priv.h,
  which is not among the sources. The spec says that it either accepts the handle or
  terminates abnormally. It is the parameter \<open>validate\<close>: where \<open>validate h\<close> is \<open>False\<close>
  the process ends there, and the result is \<open>Inl\<close> of the world as it is then. A call
  that returns gives \<open>Inr\<close> of what it returns.

  \<open>prepare_layers\<close> is the loop of lines 84 to 98 from index \<open>i\<close> on, over the entries
  not yet visited; it returns the entries as it leaves them.
\<close>

fun prepare_layers ::
  "(private_handle_t \<Rightarrow> bool) \<Rightarrow> nat \<Rightarrow> hwc_layer_t list \<Rightarrow> world
     \<Rightarrow> world + (hwc_layer_t list \<times> world)" where
  "prepare_layers validate i [] w = Inr ([], w)"
| "prepare_layers validate i (x # ls) w =
     (let w1 = dump_layer i x w;
          l = (if i > 0 then x\<lparr>compositionType := HWC_OVERLAY\<rparr> else x);
          w2 = (if needs_scaling l then emit ALOGD_needs_scaling w1 else w1)
      in if (case handle l of Some phnd \<Rightarrow> \<not> validate phnd | None \<Rightarrow> False) then Inl w2
         else (case prepare_layers validate (Suc i) ls w2 of
                 Inl w' \<Rightarrow> Inl w'
               | Inr (ls', w') \<Rightarrow> Inr (l # ls', w')))"

definition hwc_prepare ::
  "(private_handle_t \<Rightarrow> bool) \<Rightarrow> hwc_layer_list_t \<Rightarrow> world
     \<Rightarrow> world + (int \<times> hwc_layer_list_t \<times> world)" where
  "hwc_prepare validate list w =
     (if numHwLayers list > 1 then
        (let w1 = emit ALOGD_hwc_prepare w in
         if and (flags list) HWC_GEOMETRY_CHANGED \<noteq> 0 then
           (case prepare_layers validate 0 (hwLayers list) w1 of
              Inl w' \<Rightarrow> Inl w'
            | Inr (ls', w') \<Rightarrow> Inr (0, list\<lparr>hwLayers := ls'\<rparr>, w'))
         else Inr (0, list, w1))
      else Inr (0, list, w))"

subsection \<open>\<^verbatim>\<open>bitblitLayer\<close>\<close>

text \<open>
  The locals of \<^verbatim>\<open>bitblitLayer\<close> that its loops read (lines 113 to 130). The
  assignment of an \<^verbatim>\<open>int\<close> stride to a \<^verbatim>\<open>size_t\<close> keeps its bits; \<open>columns\<close> and
  \<open>rows\<close> are differences of \<^verbatim>\<open>int\<close>s, which wrap.
\<close>

record blit_locals =
  surfaceBase :: addr
  surfaceStride :: size_t
  surfaceSize :: int32
  surfaceLeft :: int32
  surfaceTop :: int32
  displayLeft :: int32
  displayTop :: int32
  layerBase :: addr
  layerStride :: size_t
  layerSize :: int32
  layerLeft :: int32
  layerTop :: int32
  columns :: int32
  rows :: int32

definition blit_setup ::
  "hwc_layer_t \<Rightarrow> private_handle_t \<Rightarrow> hwc_layer_t \<Rightarrow> private_handle_t \<Rightarrow> blit_locals" where
  "blit_setup l0 surfaceHandle l layerHandle =
     \<lparr>surfaceBase = base surfaceHandle,
      surfaceStride = stride surfaceHandle,
      surfaceSize = size_h surfaceHandle,
      surfaceLeft = left (sourceCrop l0),
      surfaceTop = top_r (sourceCrop l0),
      displayLeft = left (displayFrame l),
      displayTop = top_r (displayFrame l),
      layerBase = base layerHandle,
      layerStride = stride layerHandle,
      layerSize = size_h layerHandle,
      layerLeft = left (sourceCrop l),
      layerTop = top_r (sourceCrop l),
      columns = right (sourceCrop l) - left (sourceCrop l),
      rows = bottom (sourceCrop l) - top_r (sourceCrop l)\<rparr>"

text \<open>
  The loop counters \<open>i\<close> and \<open>j\<close> start at 0 and stay below \<open>columns\<close> and \<open>rows\<close>,
  so they never overflow: they are \<open>int\<close>, and \<open>word_of_int\<close> where they meet the
  other operands. The two pixel indices of lines 153 to 164 follow.
\<close>

definition surfaceIndex :: "blit_locals \<Rightarrow> int \<Rightarrow> int \<Rightarrow> size_t" where
  "surfaceIndex g i j =
     displayLeft g + surfaceLeft g + word_of_int i
       + (word_of_int j + displayTop g + surfaceTop g) * surfaceStride g"

definition layerIndex :: "blit_locals \<Rightarrow> int \<Rightarrow> int \<Rightarrow> size_t" where
  "layerIndex g i j =
     layerLeft g + word_of_int i + (word_of_int j + layerTop g) * layerStride g"

text \<open>The two tests of lines 153 and 158: unsigned comparisons of byte offsets.\<close>

definition base_ref_out_of_bounds :: "blit_locals \<Rightarrow> int \<Rightarrow> int \<Rightarrow> bool" where
  "base_ref_out_of_bounds g i j \<longleftrightarrow> surfaceIndex g i j * 4 > surfaceSize g"

definition layer_ref_out_of_bounds :: "blit_locals \<Rightarrow> int \<Rightarrow> int \<Rightarrow> bool" where
  "layer_ref_out_of_bounds g i j \<longleftrightarrow> layerIndex g i j * 4 > layerSize g"

text \<open>The address of element \<open>k\<close> of an array of \<^verbatim>\<open>unsigned long\<close> at \<open>b\<close>.\<close>

definition elem :: "addr \<Rightarrow> size_t \<Rightarrow> addr" where
  "elem b k = b + 4 * k"

definition surfaceAddr :: "blit_locals \<Rightarrow> int \<times> int \<Rightarrow> addr" where
  "surfaceAddr g p = elem (surfaceBase g) (surfaceIndex g (fst p) (snd p))"

definition layerAddr :: "blit_locals \<Rightarrow> int \<times> int \<Rightarrow> addr" where
  "layerAddr g p = elem (layerBase g) (layerIndex g (fst p) (snd p))"

text \<open>The assignment of lines 163 and 164: one load, one store.\<close>

definition copy_pixel :: "blit_locals \<Rightarrow> int \<times> int \<Rightarrow> world \<Rightarrow> world" where
  "copy_pixel g p w =
     (let v = mem w (layerAddr g p)
      in w\<lparr>mem := (mem w)(surfaceAddr g p := v),
            trace := trace w @ [Load (layerAddr g p), Store (surfaceAddr g p) v]\<rparr>)"

text \<open>
  The inner loop (lines 152 to 165) from \<open>j\<close> on, in column \<open>i\<close>. The flag returned is
  \<open>True\<close> when the loop left through one of the two \<^verbatim>\<open>return\<close>s.
\<close>

function blit_rows :: "blit_locals \<Rightarrow> int \<Rightarrow> int \<Rightarrow> world \<Rightarrow> bool \<times> world" where
  "blit_rows g i j w =
     (if j < sint (rows g) then
        (if base_ref_out_of_bounds g i j then
           (True, emit ALOGD_base_ref_out_of_bounds w)
         else if layer_ref_out_of_bounds g i j then
           (True, emit (ALOGD_layer_ref_out_of_bounds (layerLeft g) i j (layerTop g)
                          (layerStride g) (layerSize g)) w)
         else blit_rows g i (j + 1) (copy_pixel g (i, j) w))
      else (False, w))"
  by pat_completeness auto
termination
  by (relation "measure (\<lambda>(g, i, j, w). nat (sint (rows g) - j))") simp_all

declare blit_rows.simps [simp del]

text \<open>The outer loop (lines 151 to 166) from \<open>i\<close> on.\<close>

function blit_columns :: "blit_locals \<Rightarrow> int \<Rightarrow> world \<Rightarrow> world" where
  "blit_columns g i w =
     (if i < sint (columns g) then
        (case blit_rows g i 0 w of
           (True, w') \<Rightarrow> w'
         | (False, w') \<Rightarrow> blit_columns g (i + 1) w')
      else w)"
  by pat_completeness auto
termination
  by (relation "measure (\<lambda>(g, i, w). nat (sint (columns g) - i))") simp_all

declare blit_columns.simps [simp del]

text \<open>The request of lines 136 to 145.\<close>

definition bitblit_params ::
  "private_handle_t \<Rightarrow> private_handle_t \<Rightarrow> blit_locals \<Rightarrow> xylonbb_params" where
  "bitblit_params surfaceHandle layerHandle g =
     \<lparr>dst_dma_buf = fd surfaceHandle,
      dst_offset = 4 * (displayLeft g + surfaceLeft g
                          + (displayTop g + surfaceTop g) * surfaceStride g),
      dst_stripe = surfaceStride g,
      src_dma_buf = fd layerHandle,
      src_offset = 4 * (layerLeft g + layerTop g * layerStride g),
      src_stripe = layerStride g,
      num_columns = columns g,
      num_rows = rows g\<rparr>"

text \<open>
  \<^verbatim>\<open>ioctl\<close> on the accelerator is outside the module: it is the parameter \<open>ioctl\<close>, which
  takes the descriptor, the request and the memory, and returns its status and the
  memory as the accelerator leaves it.
\<close>

type_synonym ioctl_t = "int \<Rightarrow> xylonbb_params \<Rightarrow> (addr \<Rightarrow> pixel) \<Rightarrow> int \<times> (addr \<Rightarrow> pixel)"

definition bitblitLayer ::
  "ioctl_t \<Rightarrow> hwc_context_t \<Rightarrow> hwc_layer_t \<Rightarrow> hwc_layer_t \<Rightarrow> world \<Rightarrow> world" where
  "bitblitLayer ioctl context l0 l w =
     (case handle l0 of
        None \<Rightarrow> emit ALOGD_null_base_layer w
      | Some surfaceHandle \<Rightarrow>
          (case handle l of
             None \<Rightarrow> w
           | Some layerHandle \<Rightarrow>
               (let g = blit_setup l0 surfaceHandle l layerHandle;
                    w1 = emit (ALOGD_bitblitLayer (surfaceBase g) (layerBase g)
                                 (surfaceLeft g) (surfaceTop g) (displayLeft g)
                                 (displayTop g) (layerLeft g) (layerTop g)) w
                in if bb_fd context \<noteq> 0 then
                     (let params = bitblit_params surfaceHandle layerHandle g;
                          w2 = emit (ALOGD_handles (fd surfaceHandle) (fd layerHandle)) w1;
                          (status, m) = ioctl (bb_fd context) params (mem w2);
                          w3 = emit (Ioctl_BITBLIT (bb_fd context) params) (w2\<lparr>mem := m\<rparr>)
                      in if status = 0 then w3 else blit_columns g 0 w3)
                   else blit_columns g 0 w1)))"

subsection \<open>\<^verbatim>\<open>hwc_set\<close>\<close>

text \<open>The loop of lines 180 to 185 from index \<open>i\<close> on, over the entries not yet visited.\<close>

fun set_layers ::
  "ioctl_t \<Rightarrow> hwc_context_t \<Rightarrow> hwc_layer_t \<Rightarrow> nat \<Rightarrow> hwc_layer_t list \<Rightarrow> world \<Rightarrow> world" where
  "set_layers ioctl context l0 i [] w = w"
| "set_layers ioctl context l0 i (l # ls) w =
     (let w1 = dump_layer i l w;
          w2 = (if i > 0 then bitblitLayer ioctl context l0 l w1 else w1)
      in set_layers ioctl context l0 (Suc i) ls w2)"

text \<open>
  \<^verbatim>\<open>eglSwapBuffers\<close>, the present operation, is outside the module: it is the parameter
  of that name, which answers for a display, a surface and the memory it presents.
\<close>

definition hwc_set ::
  "ioctl_t \<Rightarrow> (addr \<Rightarrow> addr \<Rightarrow> (addr \<Rightarrow> pixel) \<Rightarrow> bool) \<Rightarrow> hwc_context_t
     \<Rightarrow> addr \<Rightarrow> addr \<Rightarrow> hwc_layer_list_t \<Rightarrow> world \<Rightarrow> int \<times> world" where
  "hwc_set ioctl eglSwapBuffers dev dpy sur list w =
     (let w1 = (if numHwLayers list > 1 then
                  set_layers ioctl dev (hwLayers list ! 0) 0 (hwLayers list)
                    (emit (ALOGD_hwc_set dpy sur) w)
                else w);
          success = eglSwapBuffers dpy sur (mem w1);
          w2 = emit (EglSwapBuffers dpy sur) w1
      in if \<not> success then (HWC_EGL_ERROR, w2) else (0, w2))"

subsection \<open>\<^verbatim>\<open>hwc_device_open\<close>\<close>

text \<open>
  \<open>open_result\<close> is what \<^verbatim>\<open>open("/dev/xylonbb", O_RDWR)\<close> returns: a descriptor, or \<open>-1\<close>
  when it fails. The context starts zeroed by \<^verbatim>\<open>memset\<close>.
\<close>

definition hwc_device_open ::
  "string \<Rightarrow> int \<Rightarrow> world \<Rightarrow> int \<times> hwc_context_t option \<times> world" where
  "hwc_device_open name open_result w =
     (if name = HWC_HARDWARE_COMPOSER then
        (let dev = \<lparr>ctx_fd = 0, bb_fd = 0\<rparr>;
             fd = open_result;
             dev1 = (if fd \<noteq> 0 then dev\<lparr>bb_fd := fd\<rparr> else dev);
             w1 = (if fd \<le> 0 then emit (ALOGE_failed_to_open fd) w else w)
         in (0, Some dev1, w1))
      else (- EINVAL, None, w))"
section \<open>Notions used to state the properties\<close>

subsection \<open>The planner\<close>

text \<open>
  Width and height of a rectangle as numbers, and the spec's condition for a scaling
  diagnostic: the display frame and the source crop differ in width or in height.
\<close>

definition width :: "hwc_rect_t \<Rightarrow> int" where
  "width r = sint (right r) - sint (left r)"

definition height :: "hwc_rect_t \<Rightarrow> int" where
  "height r = sint (bottom r) - sint (top_r r)"

definition size_differs :: "hwc_layer_t \<Rightarrow> bool" where
  "size_differs l \<longleftrightarrow>
     width (displayFrame l) \<noteq> width (sourceCrop l)
     \<or> height (displayFrame l) \<noteq> height (sourceCrop l)"

text \<open>
  Width and height as 32-bit \<^verbatim>\<open>int\<close> arithmetic gives them, and the same condition on
  these. A rectangle fits when its width and its height are in the range of \<^verbatim>\<open>int\<close>;
  its 32-bit width and height are then its width and height.
\<close>

definition width32 :: "hwc_rect_t \<Rightarrow> int32" where
  "width32 r = right r - left r"

definition height32 :: "hwc_rect_t \<Rightarrow> int32" where
  "height32 r = bottom r - top_r r"

definition size_differs32 :: "hwc_layer_t \<Rightarrow> bool" where
  "size_differs32 l \<longleftrightarrow>
     width32 (displayFrame l) \<noteq> width32 (sourceCrop l)
     \<or> height32 (displayFrame l) \<noteq> height32 (sourceCrop l)"

definition fits :: "hwc_rect_t \<Rightarrow> bool" where
  "fits r \<longleftrightarrow>
     - (2 ^ 31) \<le> width r \<and> width r < 2 ^ 31
     \<and> - (2 ^ 31) \<le> height r \<and> height r < 2 ^ 31"

text \<open>
  What the scan of layer \<open>k\<close> is to log: the dump of the layer as it arrived, then a
  scaling diagnostic when \<open>size_differs32\<close> holds of it.
\<close>

definition scan_events :: "nat \<Rightarrow> hwc_layer_t \<Rightarrow> event list" where
  "scan_events k l =
     ALOGD_dump_layer k l (case handle l of Some h \<Rightarrow> sint (stride h) | None \<Rightarrow> - 1)
       # (if size_differs32 l then [ALOGD_needs_scaling] else [])"

subsection \<open>The software copy\<close>

text \<open>
  The pixels \<open>(i, j)\<close> of the source crop, as a set and in two orders: column by column
  (\<open>i\<close> outermost, \<open>j\<close> innermost), and the order the spec words, row by row (\<open>j\<close>
  outermost, \<open>i\<close> innermost).
\<close>

definition region :: "blit_locals \<Rightarrow> (int \<times> int) set" where
  "region g = {0..<sint (columns g)} \<times> {0..<sint (rows g)}"

definition visit_order :: "blit_locals \<Rightarrow> (int \<times> int) list" where
  "visit_order g =
     concat (map (\<lambda>i. map (Pair i) [0..sint (rows g) - 1]) [0..sint (columns g) - 1])"


text \<open>
  A pixel passes when neither test of the loop body fires; when one fires, the
  diagnostic is that of the destination test if it fires, of the source test otherwise.
\<close>

definition passes :: "blit_locals \<Rightarrow> int \<times> int \<Rightarrow> bool" where
  "passes g p \<longleftrightarrow>
     \<not> base_ref_out_of_bounds g (fst p) (snd p)
     \<and> \<not> layer_ref_out_of_bounds g (fst p) (snd p)"

definition abort_event :: "blit_locals \<Rightarrow> int \<times> int \<Rightarrow> event" where
  "abort_event g p =
     (if base_ref_out_of_bounds g (fst p) (snd p) then ALOGD_base_ref_out_of_bounds
      else ALOGD_layer_ref_out_of_bounds (layerLeft g) (fst p) (snd p) (layerTop g)
             (layerStride g) (layerSize g))"

text \<open>
  Copying a list of pixels one after the other until one does not pass; the flag tells
  whether that happened.
\<close>

fun copy_pixels :: "blit_locals \<Rightarrow> (int \<times> int) list \<Rightarrow> world \<Rightarrow> bool \<times> world" where
  "copy_pixels g [] w = (False, w)"
| "copy_pixels g (p # ps) w =
     (if passes g p then copy_pixels g ps (copy_pixel g p w)
      else (True, emit (abort_event g p) w))"

text \<open>
  The spec's bound on a dereferenced offset: the pixel index times the pixel width of 4
  bytes is below the size of the buffer.
\<close>

definition within_size :: "size_t \<Rightarrow> int32 \<Rightarrow> bool" where
  "within_size k n \<longleftrightarrow> uint k * 4 < sint n"

definition offsets_within_size :: "blit_locals \<Rightarrow> bool" where
  "offsets_within_size g \<longleftrightarrow>
     list_all (\<lambda>p. within_size (surfaceIndex g (fst p) (snd p)) (surfaceSize g)
                 \<and> within_size (layerIndex g (fst p) (snd p)) (layerSize g))
       (visit_order g)"

text \<open>The addresses stored to, in the order of a trace.\<close>

fun stores :: "event list \<Rightarrow> addr list" where
  "stores [] = []"
| "stores (Store a v # es) = a # stores es"
| "stores (e # es) = stores es"

subsection \<open>Inputs for the examples\<close>

text \<open>
  In \<open>ex_world\<close> every cell holds its own address, so that the origin of each copied
  value can be read off, and nothing has been logged.
\<close>

definition ex_world :: world where
  "ex_world = \<lparr>mem = (\<lambda>a. a), trace = []\<rparr>"

definition rect :: "int32 \<Rightarrow> int32 \<Rightarrow> int32 \<Rightarrow> int32 \<Rightarrow> hwc_rect_t" where
  "rect l t r b = \<lparr>left = l, top_r = t, right = r, bottom = b\<rparr>"

definition ex_handle :: "int \<Rightarrow> addr \<Rightarrow> int32 \<Rightarrow> int32 \<Rightarrow> private_handle_t" where
  "ex_handle f b s n = \<lparr>fd = f, base = b, stride = s, size_h = n\<rparr>"

definition ex_layer ::
  "private_handle_t option \<Rightarrow> hwc_rect_t \<Rightarrow> hwc_rect_t \<Rightarrow> hwc_layer_t" where
  "ex_layer h crop frame =
     \<lparr>compositionType = 0, flags_l = 0, handle = h, transform = 0, blending = 0,
      sourceCrop = crop, displayFrame = frame\<rparr>"

definition ex_list :: "32 word \<Rightarrow> hwc_layer_t list \<Rightarrow> hwc_layer_list_t" where
  "ex_list f ls = \<lparr>flags = f, hwLayers = ls\<rparr>"

definition ex_context :: "int \<Rightarrow> hwc_context_t" where
  "ex_context b = \<lparr>ctx_fd = 0, bb_fd = b\<rparr>"

text \<open>
  Two accelerators: one whose request fails, as a request on the descriptor \<open>-1\<close> does,
  and one that reports success; both leave memory as it is.
\<close>

definition ioctl_fails :: ioctl_t where
  "ioctl_fails f params m = (- 1, m)"

definition ioctl_succeeds :: ioctl_t where
  "ioctl_succeeds f params m = (0, m)"

text \<open>
  Layers: a base layer of 4 by 4 pixels in a buffer of 64 bytes, and a source layer
  with a crop of 2 by 2 pixels; a source layer without a buffer whose frame is taller
  than its crop; a source layer whose crop is inverted; a crop of a single pixel.
\<close>

definition ex_base :: hwc_layer_t where
  "ex_base = ex_layer (Some (ex_handle 3 0x1000 4 64)) (rect 0 0 4 4) (rect 0 0 4 4)"

definition ex_src :: hwc_layer_t where
  "ex_src = ex_layer (Some (ex_handle 4 0x2000 4 64)) (rect 0 0 2 2) (rect 0 0 2 2)"

definition ex_scaled :: hwc_layer_t where
  "ex_scaled = ex_layer None (rect 0 0 2 2) (rect 1 1 3 4)"

definition ex_inverted :: hwc_layer_t where
  "ex_inverted = ex_layer (Some (ex_handle 4 0x2000 4 64)) (rect 3 0 1 2) (rect 0 0 2 2)"

definition ex_pixel :: hwc_layer_t where
  "ex_pixel = ex_layer (Some (ex_handle 4 0x2000 4 64)) (rect 0 0 1 1) (rect 0 0 1 1)"

text \<open>
  A base layer whose buffer of 16 bytes holds one row of 4 pixels, under a source
  layer 5 pixels wide: the last pixel has index 4, byte offset 16.
\<close>

definition ex_small_base :: hwc_layer_t where
  "ex_small_base = ex_layer (Some (ex_handle 3 0x1000 4 16)) (rect 0 0 4 1) (rect 0 0 4 1)"

definition ex_wide :: hwc_layer_t where
  "ex_wide = ex_layer (Some (ex_handle 4 0x2000 8 64)) (rect 0 0 5 1) (rect 0 0 5 1)"

text \<open>A base layer whose buffer of 8 bytes holds 2 pixels.\<close>

definition ex_tiny_base :: hwc_layer_t where
  "ex_tiny_base = ex_layer (Some (ex_handle 3 0x1000 4 8)) (rect 0 0 2 1) (rect 0 0 2 1)"

text \<open>
  A base layer one pixel wide (stride 1) under a source crop two pixels wide: pixel
  \<open>(1, 0)\<close> of the crop lands on the destination cell of pixel \<open>(0, 1)\<close>.
\<close>

definition ex_narrow_base :: hwc_layer_t where
  "ex_narrow_base = ex_layer (Some (ex_handle 3 0x1000 1 64)) (rect 0 0 1 4) (rect 0 0 1 4)"

definition ex_src2 :: hwc_layer_t where
  "ex_src2 = ex_layer (Some (ex_handle 4 0x2000 2 64)) (rect 0 0 2 2) (rect 0 0 2 2)"

text \<open>
  Strides 4 and 3 and origins off zero: base crop at \<open>(1, 1)\<close>, source crop of 2 by 2
  pixels at \<open>(1, 1)\<close>, shown at \<open>(1, 0)\<close>.
\<close>

definition ex_base3 :: hwc_layer_t where
  "ex_base3 = ex_layer (Some (ex_handle 3 0x1000 4 64)) (rect 1 1 4 4) (rect 0 0 3 3)"

definition ex_src3 :: hwc_layer_t where
  "ex_src3 = ex_layer (Some (ex_handle 4 0x2000 3 64)) (rect 1 1 3 3) (rect 1 0 3 2)"

text \<open>
  A source layer in the buffer of \<open>ex_base\<close> itself: its crop of 2 by 1 pixels at
  \<open>(1, 0)\<close> is shown at \<open>(0, 0)\<close>, one pixel to the left.
\<close>

definition ex_shifted :: hwc_layer_t where
  "ex_shifted = ex_layer (Some (ex_handle 3 0x1000 4 64)) (rect 1 0 3 1) (rect 0 0 2 1)"

text \<open>
  A layer whose frame runs from \<open>-1\<close> to the largest \<^verbatim>\<open>int\<close> and whose crop runs from 0
  to the smallest: the widths are \<open>2 ^ 31\<close> and \<open>- (2 ^ 31)\<close>, the heights both 0.
\<close>

definition ex_overflowing :: hwc_layer_t where
  "ex_overflowing = ex_layer None (rect 0 0 (- 2147483648) 0) (rect (- 1) 0 2147483647 0)"

text \<open>
  A source layer whose crop is inverted, from 1 to the smallest \<^verbatim>\<open>int\<close>, and one row
  high.
\<close>

definition ex_far_inverted :: hwc_layer_t where
  "ex_far_inverted =
     ex_layer (Some (ex_handle 4 0x2000 4 64)) (rect 1 0 (- 2147483648) 1) (rect 0 0 2 1)"

text \<open>Lists with the geometry-changed flag set: of two layers, and of one.\<close>

definition ex_two :: hwc_layer_list_t where
  "ex_two = ex_list 1 [ex_base, ex_scaled]"

definition ex_one :: hwc_layer_list_t where
  "ex_one = ex_list 1 [ex_base]"

definition ex_two_overflowing :: hwc_layer_list_t where
  "ex_two_overflowing = ex_list 1 [ex_base, ex_overflowing]"

text \<open>A validation that rejects the handle with descriptor 4 and accepts the others.\<close>

definition rejects_4 :: "private_handle_t \<Rightarrow> bool" where
  "rejects_4 h \<longleftrightarrow> fd h \<noteq> 4"

definition ex_three :: hwc_layer_list_t where
  "ex_three = ex_list 1 [ex_base, ex_inverted, ex_scaled]"

section \<open>Properties\<close>

subsection \<open>The planner\<close>

text \<open>
  The test of the code, which subtracts \<open>bottom\<close> from \<open>top\<close>, compares the 32-bit
  widths and heights.
\<close>

lemma needs_scaling_iff: "needs_scaling l \<longleftrightarrow> size_differs32 l"
proof -
  have "a - b = c - d \<longleftrightarrow> b - a = d - c" for a b c d :: int32
  proof
    assume "a - b = c - d"
    then have "- (a - b) = - (c - d)" by simp
    then show "b - a = d - c" by simp
  next
    assume "b - a = d - c"
    then have "- (b - a) = - (d - c)" by simp
    then show "a - b = c - d" by simp
  qed
  then show ?thesis
    unfolding needs_scaling_def size_differs32_def width32_def height32_def by simp
qed

lemma size_differs32_compositionType [simp]:
  "size_differs32 (l\<lparr>compositionType := c\<rparr>) = size_differs32 l"
  by (simp add: size_differs32_def)

text \<open>A difference of two \<^verbatim>\<open>int\<close>s that is in range is the difference of the numbers.\<close>

lemma sint_diff_exact:
  fixes a b :: int32
  assumes "- (2 ^ 31) \<le> sint a - sint b" and "sint a - sint b < 2 ^ 31"
  shows "sint (a - b) = sint a - sint b"
proof -
  have "sint (a - b) = signed_take_bit 31 (sint a - sint b)"
    by (simp add: sint_word_ariths)
  also have "\<dots> = sint a - sint b"
    using assms by (simp add: signed_take_bit_int_eq_self)
  finally show ?thesis .
qed

lemma width32_exact: "fits r \<Longrightarrow> sint (width32 r) = width r"
  by (simp add: fits_def width_def width32_def sint_diff_exact)

lemma height32_exact: "fits r \<Longrightarrow> sint (height32 r) = height r"
  by (simp add: fits_def height_def height32_def sint_diff_exact)

lemma size_differs32_exact:
  assumes "fits (displayFrame l)" and "fits (sourceCrop l)"
  shows "size_differs32 l \<longleftrightarrow> size_differs l"
proof -
  have "x = y \<longleftrightarrow> sint x = sint y" for x y :: int32
    by (auto simp: word_eq_iff_signed)
  then show ?thesis
    unfolding size_differs32_def size_differs_def
    by (simp add: width32_exact height32_exact assms)
qed

lemma prepare_layers_length:
  "prepare_layers validate i ls w = Inr (ls', w') \<Longrightarrow> length ls' = length ls"
  by (induction ls arbitrary: i w ls' w') (auto simp: Let_def split: if_splits sum.splits)

lemma prepare_layers_nth:
  "prepare_layers validate i ls w = Inr (ls', w') \<Longrightarrow> k < length ls \<Longrightarrow>
     ls' ! k = (if i + k > 0 then (ls ! k)\<lparr>compositionType := HWC_OVERLAY\<rparr> else ls ! k)"
proof (induction ls arbitrary: i w ls' w' k)
  case Nil
  then show ?case by simp
next
  case (Cons x ls)
  then show ?case
    by (cases k) (auto simp: Let_def split: if_splits sum.splits)
qed

lemma map_scan_events_Cons:
  "map (\<lambda>k. scan_events (i + k) ((x # ls) ! k)) [0..<Suc n]
     = scan_events i x # map (\<lambda>k. scan_events (Suc i + k) (ls ! k)) [0..<n]"
  by (simp add: upt_conv_Cons map_Suc_upt [symmetric] del: upt_Suc)

lemma prepare_layers_trace:
  "prepare_layers validate i ls w = Inr (ls', w') \<Longrightarrow>
     trace w' = trace w @ concat (map (\<lambda>k. scan_events (i + k) (ls ! k)) [0..<length ls])"
proof (induction ls arbitrary: i w ls' w')
  case Nil
  then show ?case by simp
next
  case (Cons x ls)
  from Cons.prems Cons.IH show ?case
    unfolding length_Cons map_scan_events_Cons
    by (auto simp: Let_def scan_events_def dump_layer_def emit_def needs_scaling_iff
        split: if_splits sum.splits)
qed

text \<open>
  A run that ends in the validation has scanned the layers up to the one it rejects,
  that one included.
\<close>

lemma prepare_layers_trace_aborted:
  "prepare_layers validate i ls w = Inl w' \<Longrightarrow>
     \<exists>n<length ls. trace w' =
       trace w @ concat (map (\<lambda>k. scan_events (i + k) (ls ! k)) [0..<Suc n])"
proof (induction ls arbitrary: i w w')
  case Nil
  then show ?case by simp
next
  case (Cons x ls)
  define l where "l = (if i > 0 then x\<lparr>compositionType := HWC_OVERLAY\<rparr> else x)"
  define w2 where "w2 = (if needs_scaling l then emit ALOGD_needs_scaling (dump_layer i x w)
    else dump_layer i x w)"
  have t2: "trace w2 = trace w @ scan_events i x"
    by (simp add: w2_def l_def scan_events_def dump_layer_def emit_def needs_scaling_iff)
  show ?case
  proof (cases "case handle l of Some phnd \<Rightarrow> \<not> validate phnd | None \<Rightarrow> False")
    case True
    with Cons.prems have "w' = w2"
      unfolding prepare_layers.simps Let_def l_def [symmetric] w2_def [symmetric] by simp
    with t2 have "trace w' =
        trace w @ concat (map (\<lambda>k. scan_events (i + k) ((x # ls) ! k)) [0..<Suc 0])"
      by simp
    then show ?thesis by auto
  next
    case False
    with Cons.prems have "prepare_layers validate (Suc i) ls w2 = Inl w'"
      unfolding prepare_layers.simps Let_def l_def [symmetric] w2_def [symmetric]
      by (simp split: sum.splits prod.splits)
    from Cons.IH [OF this] obtain n where n: "n < length ls"
      and t: "trace w' =
        trace w2 @ concat (map (\<lambda>k. scan_events (Suc i + k) (ls ! k)) [0..<Suc n])"
      by auto
    from t t2 have "trace w' =
        trace w @ concat (map (\<lambda>k. scan_events (i + k) ((x # ls) ! k)) [0..<Suc (Suc n)])"
      unfolding map_scan_events_Cons by simp
    with n show ?thesis by auto
  qed
qed

text \<open>With a validation that accepts every handle, the planner returns.\<close>

lemma prepare_layers_returns:
  "\<forall>h. validate h \<Longrightarrow> \<exists>r. prepare_layers validate i ls w = Inr r"
proof (induction ls arbitrary: i w)
  case Nil
  show ?case by simp
next
  case (Cons x ls)
  define l where "l = (if i > 0 then x\<lparr>compositionType := HWC_OVERLAY\<rparr> else x)"
  define w2 where "w2 = (if needs_scaling l then emit ALOGD_needs_scaling (dump_layer i x w)
    else dump_layer i x w)"
  obtain ls' w' where r: "prepare_layers validate (Suc i) ls w2 = Inr (ls', w')"
    using Cons.IH [OF Cons.prems, of "Suc i" w2] by auto
  have v: "\<not> (case handle l of Some phnd \<Rightarrow> \<not> validate phnd | None \<Rightarrow> False)"
    using Cons.prems by (simp split: option.splits)
  have "prepare_layers validate i (x # ls) w = Inr (l # ls', w')"
    unfolding prepare_layers.simps Let_def l_def [symmetric] w2_def [symmetric]
    using r v by simp
  then show ?case by blast
qed

lemma hwc_prepare_returns:
  "\<forall>h. validate h \<Longrightarrow> \<exists>r. hwc_prepare validate list w = Inr r"
  using prepare_layers_returns [of validate 0 "hwLayers list" "emit ALOGD_hwc_prepare w"]
  by (auto simp: hwc_prepare_def Let_def split: sum.splits)

subsection \<open>The loops of the software copy\<close>

lemma blit_columns_empty:
  "sint (columns g) \<le> 0 \<or> sint (rows g) \<le> 0 \<Longrightarrow> i \<ge> 0 \<Longrightarrow> blit_columns g i w = w"
proof (induction g i w rule: blit_columns.induct)
  case (1 g i w)
  show ?case
  proof (cases "i < sint (columns g)")
    case True
    with "1.prems" have r: "sint (rows g) \<le> 0" by auto
    then have br: "blit_rows g i 0 w = (False, w)" by (simp add: blit_rows.simps)
    have "blit_columns g (i + 1) w = w"
      using "1.IH" [OF True br [symmetric]] "1.prems" by simp
    with True br show ?thesis
      by (subst blit_columns.simps) simp
  next
    case False
    then show ?thesis by (subst blit_columns.simps) simp
  qed
qed

lemma copy_pixels_append:
  "copy_pixels g (ps @ qs) w =
     (case copy_pixels g ps w of (True, w') \<Rightarrow> (True, w') | (False, w') \<Rightarrow> copy_pixels g qs w')"
  by (induction ps arbitrary: w) auto

lemma blit_rows_copy_pixels:
  "blit_rows g i j w = copy_pixels g (map (Pair i) [j..sint (rows g) - 1]) w"
proof (induction g i j w rule: blit_rows.induct)
  case (1 g i j w)
  show ?case
  proof (cases "j < sint (rows g)")
    case True
    then have u: "[j..sint (rows g) - 1] = j # [j + 1..sint (rows g) - 1]"
      by (simp add: upto_rec1)
    show ?thesis
    proof (cases "passes g (i, j)")
      case p: True
      with True "1.IH" show ?thesis
        unfolding u by (subst blit_rows.simps) (simp add: passes_def)
    next
      case False
      with True show ?thesis
        unfolding u by (subst blit_rows.simps) (auto simp: passes_def abort_event_def)
    qed
  next
    case False
    then show ?thesis by (subst blit_rows.simps) simp
  qed
qed

lemma blit_columns_copy_pixels:
  "blit_columns g i w =
     snd (copy_pixels g (concat (map (\<lambda>i. map (Pair i) [0..sint (rows g) - 1]) [i..sint (columns g) - 1])) w)"
proof (induction g i w rule: blit_columns.induct)
  case (1 g i w)
  show ?case
  proof (cases "i < sint (columns g)")
    case True
    then have u: "[i..sint (columns g) - 1] = i # [i + 1..sint (columns g) - 1]"
      by (simp add: upto_rec1)
    obtain b w' where r: "blit_rows g i 0 w = (b, w')"
      by (cases "blit_rows g i 0 w")
    show ?thesis
    proof (cases b)
      case True
      with \<open>i < sint (columns g)\<close> r show ?thesis
        unfolding u
        by (subst blit_columns.simps)
           (simp add: copy_pixels_append blit_rows_copy_pixels [symmetric])
    next
      case False
      with \<open>i < sint (columns g)\<close> r "1.IH" [OF \<open>i < sint (columns g)\<close> r [symmetric]] show ?thesis
        unfolding u
        by (subst blit_columns.simps)
           (simp add: copy_pixels_append blit_rows_copy_pixels [symmetric])
    qed
  next
    case False
    then show ?thesis by (subst blit_columns.simps) simp
  qed
qed

lemma copy_pixels_prefix:
  "copy_pixels g ps w =
     (case dropWhile (passes g) ps of
        [] \<Rightarrow> (False, fold (copy_pixel g) (takeWhile (passes g) ps) w)
      | p # qs \<Rightarrow>
          (True, emit (abort_event g p) (fold (copy_pixel g) (takeWhile (passes g) ps) w)))"
proof (induction ps arbitrary: w)
  case Nil
  show ?case by simp
next
  case (Cons a ps)
  show ?case
  proof (cases "passes g a")
    case True
    then show ?thesis
      by (cases "dropWhile (passes g) ps")
         (simp_all add: Cons.IH del: dropWhile_eq_Nil_conv)
  next
    case False
    then show ?thesis by simp
  qed
qed

lemma blit_columns_prefix:
  "blit_columns g 0 w =
     (case dropWhile (passes g) (visit_order g) of
        [] \<Rightarrow> fold (copy_pixel g) (takeWhile (passes g) (visit_order g)) w
      | p # qs \<Rightarrow>
          emit (abort_event g p) (fold (copy_pixel g) (takeWhile (passes g) (visit_order g)) w))"
proof -
  have "blit_columns g 0 w = snd (copy_pixels g (visit_order g) w)"
    by (simp add: blit_columns_copy_pixels visit_order_def)
  then show ?thesis
    by (cases "dropWhile (passes g) (visit_order g)")
       (simp_all add: copy_pixels_prefix del: dropWhile_eq_Nil_conv)
qed

lemma set_visit_order: "set (visit_order g) = region g"
  by (auto simp: visit_order_def region_def)

lemma distinct_visit_order: "distinct (visit_order g)"
proof (cases "sint (rows g) \<le> 0")
  case True
  then have "concat (map (\<lambda>i. map (Pair i) [0..sint (rows g) - 1]) [0..sint (columns g) - 1]) = []"
    by simp
  then show ?thesis by (simp only: visit_order_def distinct.simps)
next
  case False
  then have ne: "[0..sint (rows g) - 1] \<noteq> []" by simp
  have "inj_on (\<lambda>i. map (Pair i) [0..sint (rows g) - 1]) (set [0..sint (columns g) - 1])"
  proof (rule inj_onI)
    fix x y
    assume "map (Pair x) [0..sint (rows g) - 1] = map (Pair y) [0..sint (rows g) - 1]"
    with ne show "x = y" by (cases "[0..sint (rows g) - 1]") simp_all
  qed
  then have "distinct (map (\<lambda>i. map (Pair i) [0..sint (rows g) - 1]) [0..sint (columns g) - 1])"
    by (simp add: distinct_map)
  then show ?thesis
    unfolding visit_order_def
    by (rule distinct_concat) (auto simp: distinct_map inj_on_def)
qed

text \<open>
  Whatever the software copy adds to the trace is one of the two diagnostics, or the
  load or the store of a pixel of the crop that passed both tests.
\<close>

lemma fold_copy_pixel_events:
  "e \<in> set (trace (fold (copy_pixel g) ps w)) \<Longrightarrow>
     e \<in> set (trace w)
     \<or> (\<exists>p\<in>set ps. e = Load (layerAddr g p) \<or> (\<exists>v. e = Store (surfaceAddr g p) v))"
proof (induction ps arbitrary: w)
  case Nil
  then show ?case by simp
next
  case (Cons q ps)
  from Cons.prems have "e \<in> set (trace (fold (copy_pixel g) ps (copy_pixel g q w)))"
    by simp
  then have "e \<in> set (trace (copy_pixel g q w))
      \<or> (\<exists>p\<in>set ps. e = Load (layerAddr g p) \<or> (\<exists>v. e = Store (surfaceAddr g p) v))"
    by (rule Cons.IH)
  moreover have "set (trace (copy_pixel g q w))
      = set (trace w) \<union> {Load (layerAddr g q), Store (surfaceAddr g q) (mem w (layerAddr g q))}"
    by (auto simp: copy_pixel_def Let_def)
  ultimately show ?case by auto
qed

lemma blit_columns_accesses_pass:
  assumes "e \<in> set (trace (blit_columns g 0 w))" and "e \<notin> set (trace w)"
  shows "(\<exists>p\<in>region g. e = abort_event g p \<and> \<not> passes g p)
    \<or> (\<exists>p\<in>region g. passes g p
          \<and> (e = Load (layerAddr g p) \<or> (\<exists>v. e = Store (surfaceAddr g p) v)))"
proof -
  let ?ok = "takeWhile (passes g) (visit_order g)"
  have ok: "p \<in> region g \<and> passes g p" if "p \<in> set ?ok" for p
    using that set_takeWhileD [of p "passes g" "visit_order g"] by (simp add: set_visit_order)
  show ?thesis
  proof (cases "dropWhile (passes g) (visit_order g)")
    case Nil
    with assms have "e \<in> set (trace (fold (copy_pixel g) ?ok w))"
      by (simp add: blit_columns_prefix)
    with assms(2) ok show ?thesis
      by (blast dest: fold_copy_pixel_events)
  next
    case (Cons q qs)
    then have "q \<in> set (dropWhile (passes g) (visit_order g))" by simp
    then have q: "q \<in> region g"
      using set_dropWhileD [of q "passes g" "visit_order g"] by (simp add: set_visit_order)
    from Cons have nq: "\<not> passes g q"
      using hd_dropWhile [of "passes g" "visit_order g"] by simp
    from assms(1) Cons have "e = abort_event g q \<or> e \<in> set (trace (fold (copy_pixel g) ?ok w))"
      by (auto simp: blit_columns_prefix emit_def)
    with assms(2) ok q nq show ?thesis
      by (blast dest: fold_copy_pixel_events)
  qed
qed

subsection \<open>Memory after the software copy\<close>

lemma mem_fold_other:
  "a \<notin> surfaceAddr g ` set ps \<Longrightarrow> mem (fold (copy_pixel g) ps w) a = mem w a"
  by (induction ps arbitrary: w) (auto simp: copy_pixel_def Let_def)

lemma mem_fold_copied:
  "distinct (map (surfaceAddr g) ps) \<Longrightarrow>
   \<forall>p\<in>set ps. layerAddr g p \<notin> surfaceAddr g ` set ps \<Longrightarrow>
   p \<in> set ps \<Longrightarrow>
   mem (fold (copy_pixel g) ps w) (surfaceAddr g p) = mem w (layerAddr g p)"
proof (induction ps arbitrary: w)
  case Nil
  then show ?case by simp
next
  case (Cons q ps)
  show ?case
  proof (cases "p = q")
    case True
    with Cons.prems have "surfaceAddr g p \<notin> surfaceAddr g ` set ps" by auto
    then have "mem (fold (copy_pixel g) ps (copy_pixel g q w)) (surfaceAddr g p)
        = mem (copy_pixel g q w) (surfaceAddr g p)"
      by (rule mem_fold_other)
    moreover have "mem (copy_pixel g q w) (surfaceAddr g q) = mem w (layerAddr g q)"
      by (simp add: copy_pixel_def Let_def)
    ultimately show ?thesis using True by simp
  next
    case False
    from Cons.prems have "distinct (map (surfaceAddr g) ps)" by simp
    moreover from Cons.prems have "\<forall>p\<in>set ps. layerAddr g p \<notin> surfaceAddr g ` set ps"
      by auto
    moreover from False Cons.prems have "p \<in> set ps" by simp
    ultimately have "mem (fold (copy_pixel g) ps (copy_pixel g q w)) (surfaceAddr g p)
        = mem (copy_pixel g q w) (layerAddr g p)"
      by (rule Cons.IH)
    moreover from Cons.prems have "layerAddr g p \<noteq> surfaceAddr g q" by auto
    then have "mem (copy_pixel g q w) (layerAddr g p) = mem w (layerAddr g p)"
      by (simp add: copy_pixel_def Let_def)
    ultimately show ?thesis by simp
  qed
qed

lemma blit_columns_copy:
  assumes "\<forall>p\<in>region g. passes g p"
    and "inj_on (surfaceAddr g) (region g)"
    and "\<forall>p\<in>region g. \<forall>q\<in>region g. layerAddr g p \<noteq> surfaceAddr g q"
    and "p \<in> region g"
  shows "mem (blit_columns g 0 w) (surfaceAddr g p) = mem w (layerAddr g p)"
    and "mem (blit_columns g 0 w) (layerAddr g p) = mem w (layerAddr g p)"
proof -
  from assms(1) have all: "takeWhile (passes g) (visit_order g) = visit_order g"
    "dropWhile (passes g) (visit_order g) = []"
    by (simp_all add: set_visit_order)
  have b: "blit_columns g 0 w = fold (copy_pixel g) (visit_order g) w"
    by (simp add: blit_columns_prefix all)
  have d: "distinct (map (surfaceAddr g) (visit_order g))"
    using assms(2) by (simp add: distinct_map distinct_visit_order set_visit_order)
  have n: "\<forall>p\<in>set (visit_order g). layerAddr g p \<notin> surfaceAddr g ` set (visit_order g)"
    using assms(3) by (auto simp: set_visit_order)
  from assms(4) have p: "p \<in> set (visit_order g)" by (simp add: set_visit_order)
  show "mem (blit_columns g 0 w) (surfaceAddr g p) = mem w (layerAddr g p)"
    unfolding b by (rule mem_fold_copied [OF d n p])
  from n p show "mem (blit_columns g 0 w) (layerAddr g p) = mem w (layerAddr g p)"
    unfolding b by (simp add: mem_fold_other)
qed

text \<open>
  Offsets within the size of their buffers, as the spec bounds them, pass the tests of
  the loop.
\<close>

lemma within_size_not_above:
  assumes "within_size k n"
  shows "\<not> (k * 4 > n)"
proof -
  from assms have a: "uint k * 4 < sint n" by (simp add: within_size_def)
  have k0: "0 \<le> uint k" by simp
  with a have n0: "0 \<le> sint n" by linarith
  have "sint n < 2 ^ 31"
    using sint_lt [of n] by simp
  then have n1: "sint n < 2 ^ 32" by simp
  have "uint n = sint n mod 2 ^ 32"
    by (subst uint_sint) (simp add: take_bit_eq_mod)
  with n0 n1 have v: "uint n = sint n"
    by (simp add: mod_pos_pos_trivial)
  have "uint (k * 4) = (uint k * 4) mod 2 ^ 32"
    by (simp add: uint_word_ariths)
  also have "\<dots> = uint k * 4"
    using a n1 k0 by (simp add: mod_pos_pos_trivial)
  finally have u: "uint (k * 4) = uint k * 4" .
  show ?thesis
    using a u v by (simp add: word_less_def)
qed

lemma offsets_within_size_pass:
  assumes "offsets_within_size g"
  shows "\<forall>p\<in>region g. passes g p"
proof
  fix p
  assume "p \<in> region g"
  with assms have a: "within_size (surfaceIndex g (fst p) (snd p)) (surfaceSize g)"
    and b: "within_size (layerIndex g (fst p) (snd p)) (layerSize g)"
    by (auto simp: offsets_within_size_def list_all_iff set_visit_order)
  show "passes g p"
    unfolding passes_def base_ref_out_of_bounds_def layer_ref_out_of_bounds_def
    using within_size_not_above [OF a] within_size_not_above [OF b]
    by simp
qed

subsection \<open>Evaluation of the examples\<close>

lemma upto_0_1: "[0..1] = [0, 1::int]"
  by (simp add: upto.simps)


lemmas ex_defs = ex_world_def rect_def ex_handle_def ex_layer_def ex_list_def ex_context_def
  ioctl_fails_def ioctl_succeeds_def rejects_4_def

lemmas blit_defs = bitblitLayer_def blit_setup_def blit_columns.simps blit_rows.simps
  base_ref_out_of_bounds_def layer_ref_out_of_bounds_def surfaceIndex_def layerIndex_def
  copy_pixel_def surfaceAddr_def layerAddr_def elem_def emit_def Let_def

text \<open>
  Where the source crop and its destination overlap in one buffer, a source cell is
  overwritten after it was read: after the blit of \<open>ex_shifted\<close> the destination cell of
  pixel \<open>(0, 0)\<close>, at \<open>0x1000\<close>, holds the former content of its source cell at
  \<open>0x1004\<close>, which by then holds another.
\<close>

lemma bitblitLayer_overlap_example:
  "mem (bitblitLayer ioctl_fails (ex_context 0) ex_base ex_shifted ex_world) 0x1000 = 0x1004
   \<and> mem (bitblitLayer ioctl_fails (ex_context 0) ex_base ex_shifted ex_world) 0x1004 = 0x1008"
  by (simp add: ex_world_def rect_def ex_handle_def ex_layer_def ex_context_def
      ioctl_fails_def ex_base_def ex_shifted_def blit_defs)

lemmas ex_layer_defs = ex_base_def ex_src_def ex_scaled_def ex_inverted_def ex_pixel_def
  ex_small_base_def ex_tiny_base_def ex_wide_def ex_narrow_base_def ex_src2_def ex_base3_def ex_src3_def
  ex_shifted_def ex_overflowing_def ex_far_inverted_def ex_two_def ex_one_def
  ex_two_overflowing_def ex_three_def

section \<open>The claims\<close>

text \<open>
  C1. The software copy tests the destination byte offset before every store and the
  source byte offset before every load, and an offset that fails its test is never
  dereferenced. The tests let the byte offset equal to the size through (they fire only
  when the offset is greater), so a store beyond the buffer does happen: with a
  destination buffer of 16 bytes and a last pixel of index 4, byte offset 16, the copy
  stores all five pixels, the fifth at offset 16, where \<open>within_size\<close> fails.
\<close>

theorem bitblitLayer_stores_at_size:
  "trace (bitblitLayer ioctl_fails (ex_context 0) ex_small_base ex_wide ex_world)
     = [ALOGD_bitblitLayer 0x1000 0x2000 0 0 0 0 0 0,
        Load 0x2000, Store 0x1000 0x2000, Load 0x2004, Store 0x1004 0x2004,
        Load 0x2008, Store 0x1008 0x2008, Load 0x200C, Store 0x100C 0x200C,
        Load 0x2010, Store (elem 0x1000 4) 0x2010]
   \<and> \<not> within_size 4 16
   \<and> mem (bitblitLayer ioctl_fails (ex_context 0) ex_small_base ex_wide ex_world)
         (0x1000 + 16) = 0x2010"
  by (simp add: ex_defs ex_layer_defs blit_defs within_size_def)

text \<open>
  C2. For a list of more than one layer with the geometry-changed flag set, when
  \<open>hwc_prepare\<close> returns, the list has as many entries as before, every entry at an
  index above 0 has the composition type \<open>HWC_OVERLAY\<close>, and entry 0 has the composition
  type it came with.
\<close>

theorem hwc_prepare_claims_overlays:
  assumes "numHwLayers list > 1"
    and "and (flags list) HWC_GEOMETRY_CHANGED \<noteq> 0"
    and "hwc_prepare validate list w = Inr (st, list', w')"
  shows "numHwLayers list' = numHwLayers list
    \<and> (\<forall>k. 0 < k \<and> k < numHwLayers list' \<longrightarrow>
          compositionType (hwLayers list' ! k) = HWC_OVERLAY)
    \<and> compositionType (hwLayers list' ! 0) = compositionType (hwLayers list ! 0)"
proof -
  from assms obtain ls' where
    p: "prepare_layers validate 0 (hwLayers list) (emit ALOGD_hwc_prepare w) = Inr (ls', w')"
    and l: "list' = list\<lparr>hwLayers := ls'\<rparr>"
    by (auto simp: hwc_prepare_def Let_def split: sum.splits)
  from assms(1) have z: "0 < length (hwLayers list)"
    by (auto simp: numHwLayers_def)
  show ?thesis
    using prepare_layers_length [OF p] prepare_layers_nth [OF p] prepare_layers_nth [OF p z] l
    by (simp add: numHwLayers_def)
qed

theorem hwc_prepare_claims_overlays_witness:
  "\<not> isl (hwc_prepare (\<lambda>h. True) ex_two ex_world)
   \<and> compositionType
        (hwLayers (fst (snd (projr (hwc_prepare (\<lambda>h. True) ex_two ex_world)))) ! 1)
       = HWC_OVERLAY
   \<and> compositionType
        (hwLayers (fst (snd (projr (hwc_prepare (\<lambda>h. True) ex_two ex_world)))) ! 0)
       = 0"
proof -
  have n: "numHwLayers ex_two > 1"
    by (simp add: numHwLayers_def ex_two_def ex_list_def)
  have f: "and (flags ex_two) HWC_GEOMETRY_CHANGED \<noteq> 0"
    by (simp add: ex_two_def ex_list_def HWC_GEOMETRY_CHANGED_def)
  obtain r where "hwc_prepare (\<lambda>h. True) ex_two ex_world = Inr r"
    using hwc_prepare_returns [of "\<lambda>h. True" ex_two ex_world] by auto
  then obtain st list' w' where
    p: "hwc_prepare (\<lambda>h. True) ex_two ex_world = Inr (st, list', w')"
    by (cases r) auto
  have c: "compositionType (hwLayers ex_two ! 0) = 0"
    by (simp add: ex_defs ex_layer_defs)
  from hwc_prepare_claims_overlays [OF n f p] n c show ?thesis
    by (simp add: p)
qed

text \<open>
  C3, as amended. When the accelerator is absent (\<open>bb_fd\<close> is 0) or its request returns
  a status other than 0, both layers have buffer handles, every computed offset is
  within its buffer's size (\<open>offsets_within_size\<close>), distinct pixels of the crop have
  distinct destination cells, and no source cell of the crop is a destination cell of
  the crop, then after \<open>bitblitLayer\<close>, for every \<open>0 \<le> i < columns\<close> and
  \<open>0 \<le> j < rows\<close>, the destination cell of index
  \<open>displayFrame.left + baseSourceCrop.left + i + (j + displayFrame.top + baseSourceCrop.top) * baseStride\<close>
  holds what the source cell of index
  \<open>sourceCrop.left + i + (j + sourceCrop.top) * srcStride\<close> holds, and that source
  cell holds what it held when the software loop began.
\<close>

theorem bitblitLayer_copies_region:
  assumes "handle l0 = Some sh" and "handle l = Some lh"
    and "g = blit_setup l0 sh l lh"
    and "bb_fd dev = 0
         \<or> fst (ioctl (bb_fd dev) (bitblit_params sh lh g) (mem w)) \<noteq> 0"
    and "offsets_within_size g"
    and "inj_on (surfaceAddr g) (region g)"
    and "\<forall>p\<in>region g. \<forall>q\<in>region g. layerAddr g p \<noteq> surfaceAddr g q"
    and "0 \<le> i" and "i < sint (right (sourceCrop l) - left (sourceCrop l))"
    and "0 \<le> j" and "j < sint (bottom (sourceCrop l) - top_r (sourceCrop l))"
  shows "mem (bitblitLayer ioctl dev l0 l w)
           (elem (base sh)
              (left (displayFrame l) + left (sourceCrop l0) + word_of_int i
                 + (word_of_int j + top_r (displayFrame l) + top_r (sourceCrop l0))
                     * stride sh))
       = mem (bitblitLayer ioctl dev l0 l w)
           (elem (base lh)
              (left (sourceCrop l) + word_of_int i
                 + (word_of_int j + top_r (sourceCrop l)) * stride lh))
    \<and> mem (bitblitLayer ioctl dev l0 l w)
           (elem (base lh)
              (left (sourceCrop l) + word_of_int i
                 + (word_of_int j + top_r (sourceCrop l)) * stride lh))
       = (if bb_fd dev = 0 then mem w
          else snd (ioctl (bb_fd dev) (bitblit_params sh lh g) (mem w)))
           (elem (base lh)
              (left (sourceCrop l) + word_of_int i
                 + (word_of_int j + top_r (sourceCrop l)) * stride lh))"
proof -
  obtain status m where
    io: "ioctl (bb_fd dev) (bitblit_params sh lh g) (mem w) = (status, m)"
    by (cases "ioctl (bb_fd dev) (bitblit_params sh lh g) (mem w)")
  define w0 where "w0 = emit (ALOGD_bitblitLayer (surfaceBase g) (layerBase g)
     (surfaceLeft g) (surfaceTop g) (displayLeft g) (displayTop g) (layerLeft g) (layerTop g)) w"
  define w1 where "w1 = (if bb_fd dev = 0 then w0
     else emit (Ioctl_BITBLIT (bb_fd dev) (bitblit_params sh lh g))
            ((emit (ALOGD_handles (fd sh) (fd lh)) w0)\<lparr>mem := m\<rparr>))"
  have run: "bitblitLayer ioctl dev l0 l w = blit_columns g 0 w1"
    using assms(1,2,4) io
    by (cases "bb_fd dev = 0")
       (simp_all add: bitblitLayer_def Let_def assms(3) [symmetric] w0_def w1_def emit_def)
  have mw: "mem w1 = (if bb_fd dev = 0 then mem w
      else snd (ioctl (bb_fd dev) (bitblit_params sh lh g) (mem w)))"
    by (simp add: w1_def w0_def emit_def io)
  have p: "(i, j) \<in> region g"
    using assms(8-11) by (simp add: region_def assms(3) blit_setup_def)
  have d: "surfaceAddr g (i, j) = elem (base sh)
      (left (displayFrame l) + left (sourceCrop l0) + word_of_int i
         + (word_of_int j + top_r (displayFrame l) + top_r (sourceCrop l0)) * stride sh)"
    by (simp add: surfaceAddr_def surfaceIndex_def assms(3) blit_setup_def)
  have s: "layerAddr g (i, j) = elem (base lh)
      (left (sourceCrop l) + word_of_int i
         + (word_of_int j + top_r (sourceCrop l)) * stride lh)"
    by (simp add: layerAddr_def layerIndex_def assms(3) blit_setup_def)
  have "mem (blit_columns g 0 w1) (surfaceAddr g (i, j))
        = mem (blit_columns g 0 w1) (layerAddr g (i, j))
      \<and> mem (blit_columns g 0 w1) (layerAddr g (i, j)) = mem w1 (layerAddr g (i, j))"
    using blit_columns_copy [OF offsets_within_size_pass [OF assms(5)] assms(6,7) p, of w1]
    by simp
  then show ?thesis
    unfolding run d s mw by simp
qed

theorem bitblitLayer_copies_region_witness:
  "mem (bitblitLayer ioctl_fails (ex_context 0) ex_base3 ex_src3 ex_world) 0x102C
     = mem (bitblitLayer ioctl_fails (ex_context 0) ex_base3 ex_src3 ex_world) 0x2020"
proof -
  define g where "g = blit_setup ex_base3 (ex_handle 3 0x1000 4 64) ex_src3 (ex_handle 4 0x2000 3 64)"
  have v: "visit_order g = [(0, 0), (0, 1), (1, 0), (1, 1)]"
    by (simp add: g_def visit_order_def blit_setup_def ex_defs ex_layer_defs upto_0_1)
  have r: "region g = {(0, 0), (0, 1), (1, 0), (1, 1)}"
    unfolding set_visit_order [symmetric] v by simp
  have sa: "map (surfaceAddr g) [(0, 0), (0, 1), (1, 0), (1, 1)]
      = [0x1018, 0x1028, 0x101C, 0x102C]"
    by (simp add: g_def surfaceAddr_def surfaceIndex_def elem_def blit_setup_def
        ex_defs ex_layer_defs)
  have la: "map (layerAddr g) [(0, 0), (0, 1), (1, 0), (1, 1)]
      = [0x2010, 0x201C, 0x2014, 0x2020]"
    by (simp add: g_def layerAddr_def layerIndex_def elem_def blit_setup_def
        ex_defs ex_layer_defs)
  have h1: "handle ex_base3 = Some (ex_handle 3 0x1000 4 64)"
    and h2: "handle ex_src3 = Some (ex_handle 4 0x2000 3 64)"
    by (simp_all add: ex_defs ex_layer_defs)
  have h4: "bb_fd (ex_context 0) = 0
      \<or> fst (ioctl_fails (bb_fd (ex_context 0))
            (bitblit_params (ex_handle 3 0x1000 4 64) (ex_handle 4 0x2000 3 64) g)
            (mem ex_world)) \<noteq> 0"
    by (simp add: ex_context_def)
  have h5: "offsets_within_size g"
    unfolding offsets_within_size_def v
    by (simp add: g_def within_size_def surfaceIndex_def layerIndex_def blit_setup_def
        ex_defs ex_layer_defs)
  have "distinct (map (surfaceAddr g) (visit_order g))"
    unfolding v sa by simp
  then have h6: "inj_on (surfaceAddr g) (region g)"
    by (simp add: distinct_map set_visit_order)
  have h7: "\<forall>p\<in>region g. \<forall>q\<in>region g. layerAddr g p \<noteq> surfaceAddr g q"
    using sa la unfolding r by simp
  have c: "(0::int) \<le> 1"
    "1 < sint (right (sourceCrop ex_src3) - left (sourceCrop ex_src3))"
    "1 < sint (bottom (sourceCrop ex_src3) - top_r (sourceCrop ex_src3))"
    by (simp_all add: ex_defs ex_layer_defs)
  from bitblitLayer_copies_region
    [where ioctl = ioctl_fails and dev = "ex_context 0" and w = ex_world,
      OF h1 h2 g_def h4 h5 h6 h7 c(1) c(2) c(1) c(3)]
  show ?thesis
    by (simp add: elem_def ex_defs ex_layer_defs)
qed

text \<open>
  C3 as stated fails where two pixels of the crop share a destination cell. With a
  base stride of 1 and a crop of 2 by 2 pixels, every offset is within its buffer's
  size, and the destination cell of pixel \<open>(0, 1)\<close> ends up with the source of pixel
  \<open>(1, 0)\<close>, which is copied later to the same cell.
\<close>

theorem bitblitLayer_shared_cell_counterexample:
  "handle ex_narrow_base = Some (ex_handle 3 0x1000 1 64)
   \<and> handle ex_src2 = Some (ex_handle 4 0x2000 2 64)
   \<and> bb_fd (ex_context 0) = 0
   \<and> offsets_within_size
        (blit_setup ex_narrow_base (ex_handle 3 0x1000 1 64) ex_src2 (ex_handle 4 0x2000 2 64))
   \<and> mem (bitblitLayer ioctl_fails (ex_context 0) ex_narrow_base ex_src2 ex_world)
        (elem 0x1000 (0 + 0 + word_of_int 0 + (word_of_int 1 + 0 + 0) * 1))
     \<noteq> mem (bitblitLayer ioctl_fails (ex_context 0) ex_narrow_base ex_src2 ex_world)
        (elem 0x2000 (0 + word_of_int 0 + (word_of_int 1 + 0) * 2))"
  by (simp add: ex_defs ex_layer_defs blit_defs offsets_within_size_def within_size_def
      visit_order_def upto_0_1)

text \<open>
  C4. When the accelerator is available (\<open>bb_fd\<close> is not 0), both layers have buffer
  handles and the request returns status 0, \<open>bitblitLayer\<close> ends there: memory is as the
  accelerator left it, and the trace gains the two diagnostics and the request, no
  load and no store.
\<close>

theorem bitblitLayer_accelerated:
  assumes "handle l0 = Some sh" and "handle l = Some lh"
    and "bb_fd dev \<noteq> 0"
    and "ioctl (bb_fd dev) (bitblit_params sh lh (blit_setup l0 sh l lh)) (mem w) = (0, m)"
  shows "bitblitLayer ioctl dev l0 l w
     = w\<lparr>mem := m,
          trace := trace w @
            [ALOGD_bitblitLayer (base sh) (base lh) (left (sourceCrop l0))
               (top_r (sourceCrop l0)) (left (displayFrame l)) (top_r (displayFrame l))
               (left (sourceCrop l)) (top_r (sourceCrop l)),
             ALOGD_handles (fd sh) (fd lh),
             Ioctl_BITBLIT (bb_fd dev)
               (bitblit_params sh lh (blit_setup l0 sh l lh))]\<rparr>"
  using assms by (simp add: bitblitLayer_def Let_def emit_def blit_setup_def)

theorem bitblitLayer_accelerated_witness:
  "stores (trace (bitblitLayer ioctl_succeeds (ex_context 5) ex_base ex_src ex_world)) = []
   \<and> mem (bitblitLayer ioctl_succeeds (ex_context 5) ex_base ex_src ex_world) = mem ex_world"
proof -
  have h1: "handle ex_base = Some (ex_handle 3 0x1000 4 64)"
    and h2: "handle ex_src = Some (ex_handle 4 0x2000 4 64)"
    and h3: "bb_fd (ex_context 5) \<noteq> 0"
    by (simp_all add: ex_defs ex_layer_defs)
  have h4: "ioctl_succeeds (bb_fd (ex_context 5))
      (bitblit_params (ex_handle 3 0x1000 4 64) (ex_handle 4 0x2000 4 64)
         (blit_setup ex_base (ex_handle 3 0x1000 4 64) ex_src (ex_handle 4 0x2000 4 64)))
      (mem ex_world) = (0, mem ex_world)"
    by (simp add: ioctl_succeeds_def)
  show ?thesis
    unfolding bitblitLayer_accelerated
      [where ioctl = ioctl_succeeds and w = ex_world, OF h1 h2 h3 h4]
    by (simp add: ex_world_def)
qed

text \<open>
  C5. \<open>hwc_set\<close> returns \<open>HWC_EGL_ERROR\<close> exactly when the present operation fails and 0
  exactly when it succeeds, whatever the layers, the accelerator and the blits before it
  did.
\<close>

theorem hwc_set_status:
  assumes "hwc_set ioctl eglSwapBuffers dev dpy sur list w = (st, w')"
  shows "(st = HWC_EGL_ERROR \<longleftrightarrow> \<not> eglSwapBuffers dpy sur (mem w'))
       \<and> (st = 0 \<longleftrightarrow> eglSwapBuffers dpy sur (mem w'))"
  using assms
  by (auto simp: hwc_set_def Let_def emit_def HWC_EGL_ERROR_def split: if_splits)

theorem hwc_set_status_witness:
  "fst (hwc_set ioctl_fails (\<lambda>d s m. False) (ex_context 5) 7 8 ex_two ex_world) = HWC_EGL_ERROR
   \<and> fst (hwc_set ioctl_fails (\<lambda>d s m. True) (ex_context 5) 7 8 ex_two ex_world) = 0"
proof -
  obtain st1 w1 where
    a: "hwc_set ioctl_fails (\<lambda>d s m. False) (ex_context 5) 7 8 ex_two ex_world = (st1, w1)"
    by (cases "hwc_set ioctl_fails (\<lambda>d s m. False) (ex_context 5) 7 8 ex_two ex_world")
  obtain st2 w2 where
    b: "hwc_set ioctl_fails (\<lambda>d s m. True) (ex_context 5) 7 8 ex_two ex_world = (st2, w2)"
    by (cases "hwc_set ioctl_fails (\<lambda>d s m. True) (ex_context 5) 7 8 ex_two ex_world")
  from hwc_set_status [OF a] hwc_set_status [OF b] show ?thesis
    by (simp add: a b)
qed




text \<open>
  C7, as amended. For a list of more than one layer with the geometry-changed flag set,
  \<open>hwc_prepare\<close> logs, after its opening line, for each layer it scans, in turn, the
  dump of the layer followed by a scaling diagnostic exactly when the display frame and
  the source crop differ in width or in height, widths and heights being the
  differences \<open>right - left\<close> and \<open>bottom - top\<close> that 32-bit \<^verbatim>\<open>int\<close> arithmetic gives,
  and nothing else. It scans all layers when it returns, and the layers up to the one
  whose handle the validation rejects when it ends there. For a layer whose two
  rectangles fit, these are the widths and heights themselves.
\<close>

theorem hwc_prepare_scaling_diagnostics:
  assumes "numHwLayers list > 1"
    and "and (flags list) HWC_GEOMETRY_CHANGED \<noteq> 0"
  shows "(\<forall>st list' w'. hwc_prepare validate list w = Inr (st, list', w') \<longrightarrow>
            trace w' = trace w @ ALOGD_hwc_prepare
              # concat (map (\<lambda>k. scan_events k (hwLayers list ! k)) [0..<numHwLayers list]))
    \<and> (\<forall>w'. hwc_prepare validate list w = Inl w' \<longrightarrow>
          (\<exists>n<numHwLayers list. trace w' = trace w @ ALOGD_hwc_prepare
              # concat (map (\<lambda>k. scan_events k (hwLayers list ! k)) [0..<Suc n])))
    \<and> (\<forall>l::hwc_layer_t. fits (displayFrame l) \<and> fits (sourceCrop l) \<longrightarrow>
          (size_differs32 l \<longleftrightarrow> size_differs l))"
proof (intro conjI allI impI)
  fix st list' w'
  assume "hwc_prepare validate list w = Inr (st, list', w')"
  with assms show "trace w' = trace w @ ALOGD_hwc_prepare
      # concat (map (\<lambda>k. scan_events k (hwLayers list ! k)) [0..<numHwLayers list])"
    by (auto simp: hwc_prepare_def numHwLayers_def Let_def emit_def
        split: sum.splits dest!: prepare_layers_trace)
next
  fix w'
  assume "hwc_prepare validate list w = Inl w'"
  with assms have
    "prepare_layers validate 0 (hwLayers list) (emit ALOGD_hwc_prepare w) = Inl w'"
    by (auto simp: hwc_prepare_def Let_def split: sum.splits)
  from prepare_layers_trace_aborted [OF this]
  show "\<exists>n<numHwLayers list. trace w' = trace w @ ALOGD_hwc_prepare
      # concat (map (\<lambda>k. scan_events k (hwLayers list ! k)) [0..<Suc n])"
    by (auto simp: numHwLayers_def emit_def)
next
  fix l :: hwc_layer_t
  assume "fits (displayFrame l) \<and> fits (sourceCrop l)"
  then show "size_differs32 l \<longleftrightarrow> size_differs l"
    by (simp add: size_differs32_exact)
qed

theorem hwc_prepare_scaling_diagnostics_witness:
  "trace (snd (snd (projr (hwc_prepare (\<lambda>h. True) ex_two ex_world))))
     = [ALOGD_hwc_prepare, ALOGD_dump_layer 0 ex_base 4,
        ALOGD_dump_layer 1 ex_scaled (- 1), ALOGD_needs_scaling]
   \<and> size_differs ex_scaled \<and> \<not> size_differs ex_base"
proof -
  have n: "numHwLayers ex_two > 1"
    by (simp add: numHwLayers_def ex_two_def ex_list_def)
  have f: "and (flags ex_two) HWC_GEOMETRY_CHANGED \<noteq> 0"
    by (simp add: ex_two_def ex_list_def HWC_GEOMETRY_CHANGED_def)
  obtain r where "hwc_prepare (\<lambda>h. True) ex_two ex_world = Inr r"
    using hwc_prepare_returns [of "\<lambda>h. True" ex_two ex_world] by auto
  then obtain st list' w' where
    p: "hwc_prepare (\<lambda>h. True) ex_two ex_world = Inr (st, list', w')"
    by (cases r) auto
  have e: "numHwLayers ex_two = 2" "hwLayers ex_two ! 0 = ex_base"
    "hwLayers ex_two ! Suc 0 = ex_scaled" "trace ex_world = []"
    by (simp_all add: numHwLayers_def ex_two_def ex_list_def ex_world_def)
  have u: "[0..<2] = [0, 1::nat]"
    by (simp add: upt_conv_Cons)
  have ft: "fits (displayFrame ex_scaled)" "fits (sourceCrop ex_scaled)"
    "fits (displayFrame ex_base)" "fits (sourceCrop ex_base)"
    by (simp_all add: fits_def width_def height_def ex_defs ex_layer_defs)
  have sd: "size_differs ex_scaled" "\<not> size_differs ex_base"
    by (simp_all add: size_differs_def width_def height_def ex_defs ex_layer_defs)
  note t = hwc_prepare_scaling_diagnostics [OF n f, of "\<lambda>h. True" ex_world]
  from t ft sd have s32: "size_differs32 ex_scaled" "\<not> size_differs32 ex_base"
    by blast+
  have s: "scan_events 0 ex_base = [ALOGD_dump_layer 0 ex_base 4]"
    "scan_events (Suc 0) ex_scaled
       = [ALOGD_dump_layer 1 ex_scaled (- 1), ALOGD_needs_scaling]"
    using s32 by (simp_all add: scan_events_def) (simp_all add: ex_defs ex_layer_defs)
  from t p have "trace w' = trace ex_world @ ALOGD_hwc_prepare
      # concat (map (\<lambda>k. scan_events k (hwLayers ex_two ! k)) [0..<numHwLayers ex_two])"
    by blast
  with sd show ?thesis
    by (simp add: p e u s)
qed

text \<open>
  A run that ends in the validation: the second of three layers is rejected, after its
  dump and its scaling diagnostic were logged; the third is not scanned.
\<close>

lemma hwc_prepare_aborted_example:
  "hwc_prepare rejects_4 ex_three ex_world
     = Inl \<lparr>mem = (\<lambda>a. a),
            trace = [ALOGD_hwc_prepare, ALOGD_dump_layer 0 ex_base 4,
                     ALOGD_dump_layer 1 ex_inverted 4, ALOGD_needs_scaling]\<rparr>"
  by (simp add: hwc_prepare_def numHwLayers_def Let_def dump_layer_def emit_def
      needs_scaling_def HWC_GEOMETRY_CHANGED_def HWC_OVERLAY_def ex_defs ex_layer_defs)

text \<open>
  C7 as stated fails where a width overflows: the frame of \<open>ex_overflowing\<close> is
  \<open>2 ^ 31\<close> wide and its crop \<open>- (2 ^ 31)\<close>, so the widths differ, and no scaling
  diagnostic follows the dump of the layer.
\<close>

theorem hwc_prepare_overflow_counterexample:
  "width (displayFrame ex_overflowing) = 2147483648
   \<and> width (sourceCrop ex_overflowing) = - 2147483648
   \<and> size_differs ex_overflowing
   \<and> \<not> isl (hwc_prepare (\<lambda>h. True) ex_two_overflowing ex_world)
   \<and> trace (snd (snd (projr (hwc_prepare (\<lambda>h. True) ex_two_overflowing ex_world))))
     = [ALOGD_hwc_prepare, ALOGD_dump_layer 0 ex_base 4,
        ALOGD_dump_layer 1 ex_overflowing (- 1)]"
  by (simp add: hwc_prepare_def numHwLayers_def Let_def dump_layer_def emit_def
      needs_scaling_def size_differs_def width_def height_def
      HWC_GEOMETRY_CHANGED_def HWC_OVERLAY_def ex_defs ex_layer_defs)

text \<open>
  C8. When opening the accelerator fails, \<open>open\<close> returns \<open>-1\<close>: \<open>hwc_device_open\<close>
  still returns status 0 and logs the failure, but it stores the \<open>-1\<close> in \<open>bb_fd\<close>,
  which \<open>bitblitLayer\<close> takes for an available accelerator. A blit with that dev
  issues the request on descriptor \<open>-1\<close> before it copies in software.
\<close>

theorem failed_open_still_requests:
  "hwc_device_open HWC_HARDWARE_COMPOSER (- 1) ex_world
     = (0, Some (ex_context (- 1)), emit (ALOGE_failed_to_open (- 1)) ex_world)
   \<and> trace (bitblitLayer ioctl_fails (ex_context (- 1)) ex_base ex_pixel ex_world)
     = [ALOGD_bitblitLayer 0x1000 0x2000 0 0 0 0 0 0, ALOGD_handles 3 4,
        Ioctl_BITBLIT (- 1)
          \<lparr>dst_dma_buf = 3, dst_offset = 0, dst_stripe = 4, src_dma_buf = 4,
           src_offset = 0, src_stripe = 4, num_columns = 1, num_rows = 1\<rparr>,
        Load 0x2000, Store 0x1000 0x2000]"
  by (simp add: hwc_device_open_def ex_defs ex_layer_defs blit_defs bitblit_params_def)

text \<open>
  C9. For a list of at most one layer, \<open>hwc_prepare\<close> returns the list as it came, all
  composition types included, and logs nothing; \<open>hwc_set\<close> leaves memory as it is,
  performs no blit, calls the present operation once, that call being all it adds to the
  trace, and returns 0 when the present operation succeeds and \<open>HWC_EGL_ERROR\<close> when
  it fails.
\<close>

theorem single_layer_list:
  assumes "numHwLayers list \<le> 1"
  shows "hwc_prepare validate list w = Inr (0, list, w)
    \<and> hwc_set ioctl eglSwapBuffers dev dpy sur list w
        = (if eglSwapBuffers dpy sur (mem w) then 0 else HWC_EGL_ERROR,
           w\<lparr>trace := trace w @ [EglSwapBuffers dpy sur]\<rparr>)"
  using assms by (simp add: hwc_prepare_def hwc_set_def Let_def emit_def)

theorem single_layer_list_witness:
  "hwc_prepare (\<lambda>h. False) ex_one ex_world = Inr (0, ex_one, ex_world)
   \<and> hwc_set ioctl_succeeds (\<lambda>d s m. False) (ex_context 5) 7 8 ex_one ex_world
       = (HWC_EGL_ERROR, \<lparr>mem = (\<lambda>a. a), trace = [EglSwapBuffers 7 8]\<rparr>)"
proof -
  have n: "numHwLayers ex_one \<le> 1"
    by (simp add: numHwLayers_def ex_one_def ex_list_def)
  from single_layer_list [OF n] show ?thesis
    by (simp add: ex_world_def)
qed

text \<open>
  C10, as amended. When both layers have buffer handles and the source crop is empty or
  inverted (\<open>right \<le> left\<close> or \<open>bottom \<le> top\<close>) with that width, respectively that
  height, in the range of \<^verbatim>\<open>int\<close>, the software loop changes nothing in any world it
  starts from: no load, no store, no diagnostic. \<open>bitblitLayer\<close> as a whole logs its
  opening line and, when the accelerator is available, the request it issues; memory is
  as it was, or as the accelerator left it.
\<close>

theorem empty_crop_copies_nothing:
  assumes "handle l0 = Some sh" and "handle l = Some lh"
    and "(sint (right (sourceCrop l)) \<le> sint (left (sourceCrop l))
            \<and> - (2 ^ 31) \<le> width (sourceCrop l))
         \<or> (sint (bottom (sourceCrop l)) \<le> sint (top_r (sourceCrop l))
            \<and> - (2 ^ 31) \<le> height (sourceCrop l))"
    and "g = blit_setup l0 sh l lh"
  shows "blit_columns g 0 w' = w'
    \<and> mem (bitblitLayer ioctl dev l0 l w)
        = (if bb_fd dev = 0 then mem w
           else snd (ioctl (bb_fd dev) (bitblit_params sh lh g) (mem w)))
    \<and> trace (bitblitLayer ioctl dev l0 l w)
        = trace w @
            ALOGD_bitblitLayer (base sh) (base lh) (left (sourceCrop l0))
              (top_r (sourceCrop l0)) (left (displayFrame l)) (top_r (displayFrame l))
              (left (sourceCrop l)) (top_r (sourceCrop l))
            # (if bb_fd dev = 0 then []
               else [ALOGD_handles (fd sh) (fd lh),
                     Ioctl_BITBLIT (bb_fd dev) (bitblit_params sh lh g)])"
proof -
  have c: "sint (columns g) \<le> 0"
    if "sint (right (sourceCrop l)) \<le> sint (left (sourceCrop l))"
      and "- (2 ^ 31) \<le> width (sourceCrop l)"
  proof -
    from that have "sint (right (sourceCrop l) - left (sourceCrop l))
        = sint (right (sourceCrop l)) - sint (left (sourceCrop l))"
      by (intro sint_diff_exact) (simp_all add: width_def)
    with that(1) show ?thesis
      by (simp add: assms(4) blit_setup_def)
  qed
  have r: "sint (rows g) \<le> 0"
    if "sint (bottom (sourceCrop l)) \<le> sint (top_r (sourceCrop l))"
      and "- (2 ^ 31) \<le> height (sourceCrop l)"
  proof -
    from that have "sint (bottom (sourceCrop l) - top_r (sourceCrop l))
        = sint (bottom (sourceCrop l)) - sint (top_r (sourceCrop l))"
      by (intro sint_diff_exact) (simp_all add: height_def)
    with that(1) show ?thesis
      by (simp add: assms(4) blit_setup_def)
  qed
  from assms(3) c r have e: "sint (columns g) \<le> 0 \<or> sint (rows g) \<le> 0"
    by blast
  then have n: "blit_columns g 0 v = v" for v
    by (simp add: blit_columns_empty)
  obtain status m where
    io: "ioctl (bb_fd dev) (bitblit_params sh lh g) (mem w) = (status, m)"
    by (cases "ioctl (bb_fd dev) (bitblit_params sh lh g) (mem w)")
  have "bitblitLayer ioctl dev l0 l w
      = (let w1 = emit (ALOGD_bitblitLayer (base sh) (base lh) (left (sourceCrop l0))
              (top_r (sourceCrop l0)) (left (displayFrame l)) (top_r (displayFrame l))
              (left (sourceCrop l)) (top_r (sourceCrop l))) w
         in if bb_fd dev = 0 then w1
            else emit (Ioctl_BITBLIT (bb_fd dev) (bitblit_params sh lh g))
                   ((emit (ALOGD_handles (fd sh) (fd lh)) w1)\<lparr>mem := m\<rparr>))"
    using assms(1,2) io n
    by (simp add: bitblitLayer_def Let_def emit_def assms(4) [symmetric])
       (simp add: assms(4) blit_setup_def)
  then show ?thesis
    using n io by (simp add: Let_def emit_def)
qed

theorem empty_crop_copies_nothing_witness:
  "bitblitLayer ioctl_fails (ex_context 0) ex_base ex_inverted ex_world
     = \<lparr>mem = (\<lambda>a. a), trace = [ALOGD_bitblitLayer 0x1000 0x2000 0 0 0 0 3 0]\<rparr>"
proof -
  have h1: "handle ex_base = Some (ex_handle 3 0x1000 4 64)"
    and h2: "handle ex_inverted = Some (ex_handle 4 0x2000 4 64)"
    and h3: "(sint (right (sourceCrop ex_inverted)) \<le> sint (left (sourceCrop ex_inverted))
            \<and> - (2 ^ 31) \<le> width (sourceCrop ex_inverted))
         \<or> (sint (bottom (sourceCrop ex_inverted)) \<le> sint (top_r (sourceCrop ex_inverted))
            \<and> - (2 ^ 31) \<le> height (sourceCrop ex_inverted))"
    by (simp_all add: width_def height_def ex_defs ex_layer_defs)
  have "mem (bitblitLayer ioctl_fails (ex_context 0) ex_base ex_inverted ex_world) = (\<lambda>a. a)
      \<and> trace (bitblitLayer ioctl_fails (ex_context 0) ex_base ex_inverted ex_world)
          = [ALOGD_bitblitLayer 0x1000 0x2000 0 0 0 0 3 0]"
    using empty_crop_copies_nothing [OF h1 h2 h3 refl, of ex_world ioctl_fails "ex_context 0" ex_world]
    by (simp add: ex_defs ex_layer_defs)
  then show ?thesis
    by (cases "bitblitLayer ioctl_fails (ex_context 0) ex_base ex_inverted ex_world") simp
qed

text \<open>
  C10 as stated fails where the difference overflows: the crop of \<open>ex_far_inverted\<close>
  has \<open>right \<le> left\<close>, its \<open>columns\<close> wrap to the largest \<^verbatim>\<open>int\<close>, and the loop
  copies pixels until the destination test fires.
\<close>

theorem far_inverted_crop_counterexample:
  "handle ex_tiny_base = Some (ex_handle 3 0x1000 4 8)
   \<and> handle ex_far_inverted = Some (ex_handle 4 0x2000 4 64)
   \<and> sint (right (sourceCrop ex_far_inverted)) \<le> sint (left (sourceCrop ex_far_inverted))
   \<and> trace (bitblitLayer ioctl_fails (ex_context 0) ex_tiny_base ex_far_inverted ex_world)
     = [ALOGD_bitblitLayer 0x1000 0x2000 0 0 0 0 1 0,
        Load 0x2004, Store 0x1000 0x2004, Load 0x2008, Store 0x1004 0x2008,
        Load 0x200C, Store 0x1008 0x200C, ALOGD_base_ref_out_of_bounds]"
  by (simp add: ex_defs ex_layer_defs blit_defs)

end
